theory Spec2Isabelle
  imports Main "HOL-Library.Sublist"
begin

section \<open>The Select component\<close>

text \<open>
  The Select component is a React function component. Its props are a record, its four
  \<open>useState\<close> cells are a record, and every event handler is a function from the props
  of the current render and the state to the next state. An event is handled completely,
  and the component rendered again, before the next event arrives, so the values a handler
  closes over are the current ones.
\<close>

subsection \<open>Data\<close>

text \<open>
  An option value is \<open>string | number\<close>; numbers are restricted to integers here. A
  selection (\<open>value\<close>, \<open>defaultValue\<close>, \<open>internalValue\<close>) is one such value or an array
  of them.
\<close>

datatype prim = Num int | Str string

datatype selection = Single prim | Multi "prim list"

record SelectOption =
  opt_value :: prim
  opt_label :: string
  opt_disabled :: bool

text \<open>
  The props the behaviour depends on. \<open>controlledValue\<close> is the \<open>value\<close> prop (the
  component destructures it under this name) and \<open>None\<close> is \<open>undefined\<close>;
  \<open>onChange\<close> says whether a callback was supplied.
\<close>

record SelectProps =
  options :: "SelectOption list"
  controlledValue :: "selection option"
  defaultValue :: "selection option"
  onChange :: bool
  multiple :: bool
  disabled :: bool
  searchable :: bool
  clearable :: bool

text \<open>
  The state cells \<open>internalValue\<close>, \<open>isOpen\<close>, \<open>searchQuery\<close> and \<open>focusedIndex\<close>,
  and the list of the arguments \<open>onChange\<close> has been called with, oldest first.
\<close>

record SelectState =
  internalValue :: selection
  isOpen :: bool
  searchQuery :: string
  focusedIndex :: int
  changes :: "selection list"

subsection \<open>Truthiness and the initial state\<close>

fun truthy_prim :: "prim \<Rightarrow> bool" where
  "truthy_prim (Num n) = (n \<noteq> 0)"
| "truthy_prim (Str s) = (s \<noteq> [])"

fun truthy :: "selection \<Rightarrow> bool" where
  "truthy (Single v) = truthy_prim v"
| "truthy (Multi vs) = True"

text \<open>\<open>useState(defaultValue || (multiple ? [] : ''))\<close> and the other initial cells.\<close>

definition initialState :: "SelectProps \<Rightarrow> SelectState" where
  "initialState p =
     \<lparr> internalValue =
         (case defaultValue p of
            Some v \<Rightarrow> if truthy v then v else (if multiple p then Multi [] else Single (Str []))
          | None \<Rightarrow> (if multiple p then Multi [] else Single (Str []))),
       isOpen = False,
       searchQuery = [],
       focusedIndex = - 1,
       changes = [] \<rparr>"

definition isControlled :: "SelectProps \<Rightarrow> bool" where
  "isControlled p = (controlledValue p \<noteq> None)"

definition currentValue :: "SelectProps \<Rightarrow> SelectState \<Rightarrow> selection" where
  "currentValue p s =
     (case controlledValue p of Some v \<Rightarrow> v | None \<Rightarrow> internalValue s)"

subsection \<open>The search filter\<close>

text \<open>
  A label and a query are lists of 8-bit characters, read as the UTF-16 code units below
  256 (ASCII and the Latin-1 supplement). On such a string
  \<open>String.prototype.toLowerCase\<close> maps each of the capital letters (A to Z, and the
  units 192 to 222 but for the multiplication sign 215) to the letter 32 units above it
  and keeps every other unit; no mapping on this range looks at the neighbours of a unit
  or changes the length.
\<close>

definition is_upper :: "char \<Rightarrow> bool" where
  "is_upper c =
     ((65 \<le> (of_char c :: nat) \<and> (of_char c :: nat) \<le> 90)
      \<or> (192 \<le> (of_char c :: nat) \<and> (of_char c :: nat) \<le> 222
          \<and> (of_char c :: nat) \<noteq> 215))"

definition lower_char :: "char \<Rightarrow> char" where
  "lower_char c = (if is_upper c then char_of ((of_char c :: nat) + 32) else c)"

definition toLowerCase :: "string \<Rightarrow> string" where
  "toLowerCase s = map lower_char s"

text \<open>\<open>s.includes(t)\<close>: \<open>t\<close> occurs in \<open>s\<close> as a contiguous run, at some position.\<close>

fun str_includes :: "'a list \<Rightarrow> 'a list \<Rightarrow> bool" where
  "str_includes [] t = (t = [])"
| "str_includes (c # s) t = (prefix t (c # s) \<or> str_includes s t)"

text \<open>
  The expression that computes \<open>filteredOptions\<close>, over any type of code units:
  \<open>lower\<close> is \<open>toLowerCase\<close> on it and \<open>label\<close> reads \<open>option.label\<close>.
\<close>

definition filterOptions ::
    "('c list \<Rightarrow> 'c list) \<Rightarrow> ('o \<Rightarrow> 'c list) \<Rightarrow> bool \<Rightarrow> 'c list \<Rightarrow> 'o list \<Rightarrow> 'o list" where
  "filterOptions lower label searchable_flag query opts =
     (if searchable_flag \<and> query \<noteq> []
      then filter (\<lambda>option. str_includes (lower (label option)) (lower query)) opts
      else opts)"

definition filteredOptions :: "SelectProps \<Rightarrow> SelectState \<Rightarrow> SelectOption list" where
  "filteredOptions p s =
     filterOptions toLowerCase opt_label (searchable p) (searchQuery s) (options p)"

text \<open>
  The search filter in the words of its contract, with no lower-casing: the options, in
  their order, whose label has a run of characters that is the query up to the case of
  letters. Two characters are the same up to case when they are equal or are the capital
  and the small form of one letter.
\<close>

definition case_pairs :: "(char \<times> char) list" where
  "case_pairs =
     zip ''ABCDEFGHIJKLMNOPQRSTUVWXYZ'' ''abcdefghijklmnopqrstuvwxyz''
     @ map (\<lambda>n. (char_of n, char_of (n + 32))) ([192 ..< 215] @ [216 ..< 223 :: nat])"

definition same_letter :: "char \<Rightarrow> char \<Rightarrow> bool" where
  "same_letter c d = (c = d \<or> (c, d) \<in> set case_pairs \<or> (d, c) \<in> set case_pairs)"

definition contains_ci :: "string \<Rightarrow> string \<Rightarrow> bool" where
  "contains_ci lbl q =
     (\<exists>before mid after. lbl = before @ mid @ after \<and> list_all2 same_letter mid q)"

definition search_filter_spec :: "SelectOption list \<Rightarrow> string \<Rightarrow> SelectOption list" where
  "search_filter_spec opts q = filter (\<lambda>option. contains_ci (opt_label option) q) opts"

text \<open>
  Beyond the 8-bit range \<open>toLowerCase\<close> depends on the context: the Greek capital
  sigma (U+03A3) becomes the final small sigma (U+03C2) where a cased letter stands
  before it and none after it, characters that are ignored for case being skipped on
  both sides, and the small sigma (U+03C3) elsewhere. \<open>wide_char\<close> is an alphabet of
  five code units to state this on: the Latin A and a and the three sigmas, all of them
  cased letters and none ignored for case. \<open>lowerW preceded s\<close> lower-cases the rest
  \<open>s\<close> of a string, \<open>preceded\<close> telling whether a character stands before it.
\<close>

datatype wide_char = CapA | SmallA | CapSigma | SmallSigma | FinalSigma

fun lowerW :: "bool \<Rightarrow> wide_char list \<Rightarrow> wide_char list" where
  "lowerW preceded [] = []"
| "lowerW preceded (CapA # rest) = SmallA # lowerW True rest"
| "lowerW preceded (CapSigma # rest) =
     (if preceded \<and> rest = [] then FinalSigma else SmallSigma) # lowerW True rest"
| "lowerW preceded (c # rest) = c # lowerW True rest"

definition toLowerCaseW :: "wide_char list \<Rightarrow> wide_char list" where
  "toLowerCaseW s = lowerW False s"

subsection \<open>Handlers\<close>

definition handleValueChange :: "SelectProps \<Rightarrow> SelectState \<Rightarrow> selection \<Rightarrow> SelectState" where
  "handleValueChange p s newValue =
     s\<lparr> internalValue := (if \<not> isControlled p then newValue else internalValue s),
        changes := (if onChange p then changes s @ [newValue] else changes s) \<rparr>"

definition handleOptionClick :: "SelectProps \<Rightarrow> SelectState \<Rightarrow> prim \<Rightarrow> SelectState" where
  "handleOptionClick p s optionValue =
     (if multiple p then
        (let currentArray = (case currentValue p s of Multi vs \<Rightarrow> vs | Single v \<Rightarrow> []);
             newValue = (if optionValue \<in> set currentArray
                         then filter (\<lambda>v. v \<noteq> optionValue) currentArray
                         else currentArray @ [optionValue])
         in handleValueChange p s (Multi newValue))
      else (handleValueChange p s (Single optionValue))\<lparr> isOpen := False \<rparr>)"

definition handleClear :: "SelectProps \<Rightarrow> SelectState \<Rightarrow> SelectState" where
  "handleClear p s =
     (handleValueChange p s (if multiple p then Multi [] else Single (Str [])))
       \<lparr> searchQuery := [] \<rparr>"

datatype key = Enter | Escape | ArrowDown | ArrowUp | Space | OtherKey

fun handleKeyDown :: "SelectProps \<Rightarrow> SelectState \<Rightarrow> key \<Rightarrow> SelectState" where
  "handleKeyDown p s k =
     (if disabled p then s
      else (case k of
          Enter \<Rightarrow>
            (if isOpen s \<and> focusedIndex s \<ge> 0
                 \<and> focusedIndex s < int (length (filteredOptions p s))
             then handleOptionClick p s (opt_value (filteredOptions p s ! nat (focusedIndex s)))
             else s\<lparr> isOpen := \<not> isOpen s \<rparr>)
        | Escape \<Rightarrow> s\<lparr> isOpen := False, focusedIndex := - 1 \<rparr>
        | ArrowDown \<Rightarrow>
            (if \<not> isOpen s then s\<lparr> isOpen := True \<rparr>
             else s\<lparr> focusedIndex :=
                       (if focusedIndex s < int (length (filteredOptions p s)) - 1
                        then focusedIndex s + 1 else 0) \<rparr>)
        | ArrowUp \<Rightarrow>
            (if isOpen s
             then s\<lparr> focusedIndex :=
                       (if focusedIndex s > 0 then focusedIndex s - 1
                        else int (length (filteredOptions p s)) - 1) \<rparr>
             else s)
        | Space \<Rightarrow> (if \<not> searchable p then s\<lparr> isOpen := \<not> isOpen s \<rparr> else s)
        | OtherKey \<Rightarrow> s))"

text \<open>
  \<open>clearable && ((multiple && Array.isArray(currentValue) && currentValue.length > 0)
  || (!multiple && currentValue))\<close>: whether the clear button is rendered.
\<close>

definition showClearButton :: "SelectProps \<Rightarrow> SelectState \<Rightarrow> bool" where
  "showClearButton p s =
     (clearable p \<and>
      (if multiple p then (case currentValue p s of Multi vs \<Rightarrow> vs \<noteq> [] | Single v \<Rightarrow> False)
       else truthy (currentValue p s)))"

subsection \<open>Events\<close>

text \<open>
  The events the rendered tree delivers. An option row, the search input and the clear
  button exist only while they are rendered, so their events leave the state alone
  otherwise. \<open>OptionClick i\<close> and \<open>OptionMouseEnter i\<close> are on row \<open>i\<close> of the
  filtered list.
\<close>

datatype event =
    TriggerClick
  | KeyDown key
  | ClickOutside
  | OptionClick nat
  | OptionMouseEnter nat
  | SearchChange string
  | ClearClick

fun step :: "SelectProps \<Rightarrow> SelectState \<Rightarrow> event \<Rightarrow> SelectState" where
  "step p s TriggerClick = (if disabled p then s else s\<lparr> isOpen := \<not> isOpen s \<rparr>)"
| "step p s (KeyDown k) = handleKeyDown p s k"
| "step p s ClickOutside = s\<lparr> isOpen := False, searchQuery := [], focusedIndex := - 1 \<rparr>"
| "step p s (OptionClick i) =
     (if isOpen s \<and> i < length (filteredOptions p s)
      then (if opt_disabled (filteredOptions p s ! i) then s
            else handleOptionClick p s (opt_value (filteredOptions p s ! i)))
      else s)"
| "step p s (OptionMouseEnter i) =
     (if isOpen s \<and> i < length (filteredOptions p s)
      then s\<lparr> focusedIndex := int i \<rparr> else s)"
| "step p s (SearchChange q) =
     (if isOpen s \<and> searchable p then s\<lparr> searchQuery := q \<rparr> else s)"
| "step p s ClearClick = (if showClearButton p s then handleClear p s else s)"

text \<open>
  A life of one instance: each event is handled under the props of the render that is
  current when it arrives, and the caller may pass other props at every render.
\<close>

fun run :: "SelectState \<Rightarrow> (SelectProps \<times> event) list \<Rightarrow> SelectState" where
  "run s [] = s"
| "run s ((p, e) # rest) = run (step p s e) rest"

text \<open>The options of the component's tests, and props built on them.\<close>

definition mockOptions :: "SelectOption list" where
  "mockOptions =
     [ \<lparr> opt_value = Str ''apple'', opt_label = ''Apple'', opt_disabled = False \<rparr>,
       \<lparr> opt_value = Str ''banana'', opt_label = ''Banana'', opt_disabled = False \<rparr>,
       \<lparr> opt_value = Str ''cherry'', opt_label = ''Cherry'', opt_disabled = False \<rparr>,
       \<lparr> opt_value = Str ''date'', opt_label = ''Date'', opt_disabled = True \<rparr>,
       \<lparr> opt_value = Str ''elderberry'', opt_label = ''Elderberry'', opt_disabled = False \<rparr> ]"

definition mockProps :: SelectProps where
  "mockProps =
     \<lparr> options = mockOptions, controlledValue = None, defaultValue = None,
       onChange = True, multiple = False, disabled = False, searchable = False,
       clearable = False \<rparr>"

section \<open>The Table component\<close>

subsection \<open>Data\<close>

text \<open>
  A cell of a row is any JavaScript value; the ones modelled are \<open>undefined\<close>, \<open>null\<close>,
  booleans, integer numbers and strings. A row is an object, given by its properties (a
  name is bound once); reading a property that is absent gives \<open>undefined\<close>.
\<close>

datatype jsval = Undefined | Null | Boolean bool | Number int | Text string

type_synonym row = "(string \<times> jsval) list"

definition get_field :: "row \<Rightarrow> string \<Rightarrow> jsval" where
  "get_field r k = (case map_of r k of Some v \<Rightarrow> v | None \<Rightarrow> Undefined)"

fun js_truthy :: "jsval \<Rightarrow> bool" where
  "js_truthy Undefined = False"
| "js_truthy Null = False"
| "js_truthy (Boolean b) = b"
| "js_truthy (Number n) = (n \<noteq> 0)"
| "js_truthy (Text t) = (t \<noteq> [])"

datatype direction = Asc | Desc

record SortState =
  sortKey :: "string option"
  sortDirection :: "direction option"

text \<open>
  \<open>col_dataIndex\<close> and \<open>col_sortable\<close> are optional properties: \<open>None\<close> is
  \<open>undefined\<close>.
\<close>

record TableColumn =
  col_key :: string
  col_dataIndex :: "string option"
  col_sortable :: "bool option"

datatype rowKeyProp = FieldName string | KeyFunction "row \<Rightarrow> jsval"

text \<open>
  The props the behaviour depends on. \<open>onSelectionChange\<close> says whether a callback was
  supplied. \<open>pageSize\<close> is an integer; the division by \<open>pageSize\<close> is modelled for
  \<open>pageSize \<noteq> 0\<close> only.
\<close>

record TableProps =
  columns :: "TableColumn list"
  data :: "row list"
  sortable :: bool
  selectable :: bool
  selectedRowKeys :: "jsval list"
  onSelectionChange :: bool
  rowKey :: rowKeyProp
  pagination :: bool
  pageSize :: int

text \<open>
  The state cells \<open>sortState\<close> and \<open>currentPage\<close>, and the list of the argument
  pairs \<open>onSelectionChange\<close> has been called with, oldest first.
\<close>

record TableState =
  sortState :: SortState
  currentPage :: int
  selectionChanges :: "(jsval list \<times> row list) list"

definition initialTableState :: TableState where
  "initialTableState =
     \<lparr> sortState = \<lparr> sortKey = None, sortDirection = None \<rparr>,
       currentPage = 1,
       selectionChanges = [] \<rparr>"

subsection \<open>Row keys and selection\<close>

definition getRowKey :: "TableProps \<Rightarrow> row \<Rightarrow> nat \<Rightarrow> jsval" where
  "getRowKey p record index =
     (case rowKey p of
        KeyFunction f \<Rightarrow> f record
      | FieldName k \<Rightarrow>
          (if js_truthy (get_field record k) then get_field record k else Number (int index)))"

definition handleRowSelection :: "TableProps \<Rightarrow> TableState \<Rightarrow> jsval \<Rightarrow> row \<Rightarrow> TableState" where
  "handleRowSelection p s k record =
     (if \<not> selectable p \<or> \<not> onSelectionChange p then s
      else
        (let newSelectedKeys =
               (if k \<in> set (selectedRowKeys p)
                then filter (\<lambda>k'. k' \<noteq> k) (selectedRowKeys p)
                else selectedRowKeys p @ [k]);
             selectedRows =
               filter (\<lambda>item. getRowKey p item 0 \<in> set newSelectedKeys) (data p)
         in s\<lparr> selectionChanges := selectionChanges s @ [(newSelectedKeys, selectedRows)] \<rparr>))"

definition handleSelectAll :: "TableProps \<Rightarrow> TableState \<Rightarrow> TableState" where
  "handleSelectAll p s =
     (if \<not> selectable p \<or> \<not> onSelectionChange p then s
      else
        (let allKeys = map (\<lambda>(index, record). getRowKey p record index) (enumerate 0 (data p));
             isAllSelected = list_all (\<lambda>k. k \<in> set (selectedRowKeys p)) allKeys;
             newSelectedKeys = (if isAllSelected then [] else allKeys);
             selectedRows = (if isAllSelected then [] else data p)
         in s\<lparr> selectionChanges := selectionChanges s @ [(newSelectedKeys, selectedRows)] \<rparr>))"

subsection \<open>Sorting\<close>

definition handleSort :: "TableProps \<Rightarrow> TableState \<Rightarrow> string \<Rightarrow> TableState" where
  "handleSort p s columnKey =
     (if \<not> sortable p then s
      else s\<lparr> sortState :=
        (let prev = sortState s in
         if sortKey prev = Some columnKey then
           (if sortDirection prev = Some Asc
              then \<lparr> sortKey = Some columnKey, sortDirection = Some Desc \<rparr>
            else if sortDirection prev = Some Desc
              then \<lparr> sortKey = None, sortDirection = None \<rparr>
            else \<lparr> sortKey = Some columnKey, sortDirection = Some Asc \<rparr>)
         else \<lparr> sortKey = Some columnKey, sortDirection = Some Asc \<rparr>) \<rparr>)"

text \<open>
  \<open>Array.prototype.sort\<close> with a comparator is stable; it is modelled by the stable
  insertion sort, which is what it computes whenever the comparator is a consistent
  ordering.
\<close>

fun insert_by :: "('a \<Rightarrow> 'a \<Rightarrow> int) \<Rightarrow> 'a \<Rightarrow> 'a list \<Rightarrow> 'a list" where
  "insert_by cmp x [] = [x]"
| "insert_by cmp x (y # ys) =
     (if cmp x y \<le> 0 then x # y # ys else y # insert_by cmp x ys)"

definition sort_by :: "('a \<Rightarrow> 'a \<Rightarrow> int) \<Rightarrow> 'a list \<Rightarrow> 'a list" where
  "sort_by cmp xs = foldr (insert_by cmp) xs []"

text \<open>
  The comparator of \<open>sortedData\<close>. The operator \<open><\<close> of the language is the parameter
  \<open>lt\<close>, and \<open>a > b\<close> is \<open>lt b a\<close>.
\<close>

definition compareRows ::
    "(jsval \<Rightarrow> jsval \<Rightarrow> bool) \<Rightarrow> TableProps \<Rightarrow> string \<Rightarrow> direction \<Rightarrow> row \<Rightarrow> row \<Rightarrow> int" where
  "compareRows lt p k dir a b =
     (case find (\<lambda>col. col_key col = k) (columns p) of
        None \<Rightarrow> 0
      | Some column \<Rightarrow>
          (let field = (case col_dataIndex column of
                          Some d \<Rightarrow> if d \<noteq> [] then d else k
                        | None \<Rightarrow> k);
               aValue = get_field a field;
               bValue = get_field b field
           in if lt aValue bValue then (if dir = Asc then - 1 else 1)
              else if lt bValue aValue then (if dir = Asc then 1 else - 1)
              else 0))"

definition sortedData :: "(jsval \<Rightarrow> jsval \<Rightarrow> bool) \<Rightarrow> TableProps \<Rightarrow> TableState \<Rightarrow> row list" where
  "sortedData lt p s =
     (case sortKey (sortState s) of
        None \<Rightarrow> data p
      | Some k \<Rightarrow>
          (case sortDirection (sortState s) of
             None \<Rightarrow> data p
           | Some dir \<Rightarrow>
               if k = [] then data p
               else sort_by (compareRows lt p k dir) (data p)))"

text \<open>
  The operator \<open><\<close> on two numbers and on two strings (by code units). Operands of other
  or mixed types go through the language's conversion to numbers, which is not modelled:
  they are taken as unordered.
\<close>

fun str_lt :: "string \<Rightarrow> string \<Rightarrow> bool" where
  "str_lt [] [] = False"
| "str_lt [] (d # t) = True"
| "str_lt (c # s) [] = False"
| "str_lt (c # s) (d # t) =
     ((of_char c :: nat) < of_char d \<or> (c = d \<and> str_lt s t))"

fun js_lt :: "jsval \<Rightarrow> jsval \<Rightarrow> bool" where
  "js_lt (Number a) (Number b) = (a < b)"
| "js_lt (Text a) (Text b) = str_lt a b"
| "js_lt a b = False"

subsection \<open>Pagination\<close>

text \<open>\<open>Math.ceil(n / d)\<close> for integers \<open>n\<close> and \<open>d \<noteq> 0\<close>.\<close>

definition ceil_div :: "int \<Rightarrow> int \<Rightarrow> int" where
  "ceil_div n d = - ((- n) div d)"

text \<open>
  \<open>xs.slice(start, fin)\<close> on integers: a negative index counts from the end, and
  both are cut to the list.
\<close>

definition slice :: "'a list \<Rightarrow> int \<Rightarrow> int \<Rightarrow> 'a list" where
  "slice xs start fin =
     (let len = int (length xs);
          k = (if start < 0 then max (len + start) 0 else min start len);
          final = (if fin < 0 then max (len + fin) 0 else min fin len)
      in take (nat (final - k)) (drop (nat k) xs))"

definition paginatedData :: "(jsval \<Rightarrow> jsval \<Rightarrow> bool) \<Rightarrow> TableProps \<Rightarrow> TableState \<Rightarrow> row list" where
  "paginatedData lt p s =
     (if \<not> pagination p then sortedData lt p s
      else (let start = (currentPage s - 1) * pageSize p
            in slice (sortedData lt p s) start (start + pageSize p)))"

text \<open>
  \<open>Math.ceil(sortedData.length / pageSize)\<close>: the number of pages the page label shows
  and the Next button compares with.
\<close>

definition totalPages :: "(jsval \<Rightarrow> jsval \<Rightarrow> bool) \<Rightarrow> TableProps \<Rightarrow> TableState \<Rightarrow> int" where
  "totalPages lt p s = ceil_div (int (length (sortedData lt p s))) (pageSize p)"

text \<open>The state updates of the Previous and the Next button.\<close>

definition previousPage :: "TableState \<Rightarrow> TableState" where
  "previousPage s = s\<lparr> currentPage := max 1 (currentPage s - 1) \<rparr>"

definition nextPage :: "(jsval \<Rightarrow> jsval \<Rightarrow> bool) \<Rightarrow> TableProps \<Rightarrow> TableState \<Rightarrow> TableState" where
  "nextPage lt p s = s\<lparr> currentPage := min (totalPages lt p s) (currentPage s + 1) \<rparr>"

subsection \<open>The rendered rows and the events\<close>

text \<open>
  The body renders one row per element of \<open>paginatedData\<close>, keyed by \<open>getRowKey\<close> at
  its position in that list; its checkbox is checked when the key is among
  \<open>selectedRowKeys\<close>. \<open>checkedRows\<close> are the rows rendered with a checked checkbox.
\<close>

definition renderedKeys :: "(jsval \<Rightarrow> jsval \<Rightarrow> bool) \<Rightarrow> TableProps \<Rightarrow> TableState \<Rightarrow> (jsval \<times> row) list" where
  "renderedKeys lt p s =
     map (\<lambda>(index, record). (getRowKey p record index, record))
         (enumerate 0 (paginatedData lt p s))"

definition checkedRows :: "(jsval \<Rightarrow> jsval \<Rightarrow> bool) \<Rightarrow> TableProps \<Rightarrow> TableState \<Rightarrow> row list" where
  "checkedRows lt p s =
     map snd (filter (\<lambda>(k, record). k \<in> set (selectedRowKeys p)) (renderedKeys lt p s))"

text \<open>
  The events of the rendered table: a click on the header of a column, on the Previous
  or the Next button (a disabled button delivers no click, and neither is rendered
  without \<open>pagination\<close>), on the checkbox of the row at a position of the page, and on
  the select-all checkbox.
\<close>

datatype table_event =
    HeaderClick TableColumn
  | PreviousClick
  | NextClick
  | RowCheckbox nat
  | SelectAll

fun table_step ::
    "(jsval \<Rightarrow> jsval \<Rightarrow> bool) \<Rightarrow> TableProps \<Rightarrow> TableState \<Rightarrow> table_event \<Rightarrow> TableState" where
  "table_step lt p s (HeaderClick column) =
     (if col_sortable column \<noteq> Some False then handleSort p s (col_key column) else s)"
| "table_step lt p s PreviousClick =
     (if pagination p \<and> currentPage s \<noteq> 1 then previousPage s else s)"
| "table_step lt p s NextClick =
     (if pagination p \<and> \<not> currentPage s \<ge> totalPages lt p s then nextPage lt p s else s)"
| "table_step lt p s (RowCheckbox i) =
     (if selectable p \<and> i < length (renderedKeys lt p s)
      then handleRowSelection p s (fst (renderedKeys lt p s ! i)) (snd (renderedKeys lt p s ! i))
      else s)"
| "table_step lt p s SelectAll = (if selectable p then handleSelectAll p s else s)"

text \<open>
  A life of one table: each event is handled under the props of the render that is
  current when it arrives; the caller may pass another dataset at every render.
\<close>

fun table_run ::
    "(jsval \<Rightarrow> jsval \<Rightarrow> bool) \<Rightarrow> TableState \<Rightarrow> (TableProps \<times> table_event) list \<Rightarrow> TableState" where
  "table_run lt s [] = s"
| "table_run lt s ((p, e) # rest) = table_run lt (table_step lt p s e) rest"

text \<open>The page invariant of the data model.\<close>

definition page_in_range :: "(jsval \<Rightarrow> jsval \<Rightarrow> bool) \<Rightarrow> TableProps \<Rightarrow> TableState \<Rightarrow> bool" where
  "page_in_range lt p s =
     (1 \<le> currentPage s \<and> currentPage s \<le> max 1 (totalPages lt p s))"

text \<open>The five users of the table's examples, and props built on them.\<close>

definition user :: "int \<Rightarrow> string \<Rightarrow> int \<Rightarrow> row" where
  "user i n a = [(''id'', Number i), (''name'', Text n), (''age'', Number a)]"

definition users :: "row list" where
  "users =
     [ user 1 ''John Doe'' 28, user 2 ''Jane Smith'' 32, user 3 ''Bob Johnson'' 45,
       user 4 ''Alice Brown'' 29, user 5 ''Charlie Wilson'' 38 ]"

definition nameColumn :: TableColumn where
  "nameColumn = \<lparr> col_key = ''name'', col_dataIndex = None, col_sortable = Some True \<rparr>"

definition ageColumn :: TableColumn where
  "ageColumn = \<lparr> col_key = ''age'', col_dataIndex = None, col_sortable = Some True \<rparr>"

definition usersProps :: TableProps where
  "usersProps =
     \<lparr> columns = [nameColumn, ageColumn], data = users, sortable = True,
       selectable = True, selectedRowKeys = [], onSelectionChange = True,
       rowKey = FieldName ''id'', pagination = True, pageSize = 2 \<rparr>"

text \<open>Two rows without an \<open>id\<close>, under the default \<open>rowKey\<close>.\<close>

definition unkeyedRows :: "row list" where
  "unkeyedRows = [[(''name'', Text ''Ann'')], [(''name'', Text ''Bob'')]]"

definition unkeyedProps :: TableProps where
  "unkeyedProps = usersProps\<lparr> data := unkeyedRows, pagination := False \<rparr>"

section \<open>Properties of the Select component\<close>

lemmas mock_defs = mockProps_def mockOptions_def initialState_def filteredOptions_def
  filterOptions_def

subsection \<open>Disabled options\<close>

text \<open>
  Claim C1: toggling a disabled option is a no-op, by a click and by Enter on the focused
  row alike. The click handler of a row checks \<open>option.disabled\<close>; the Enter branch of
  \<open>handleKeyDown\<close> does not. On the options of the tests, a click on the disabled row
  \<open>Date\<close> leaves the state as it is, and four ArrowDown presses followed by Enter select
  \<open>date\<close>, call \<open>onChange\<close> with it and close the list.
\<close>

theorem C1_enter_commits_disabled_option:
  "opt_disabled (mockOptions ! 3)
   \<and> step mockProps (run (initialState mockProps) [(mockProps, TriggerClick)]) (OptionClick 3)
       = run (initialState mockProps) [(mockProps, TriggerClick)]
   \<and> focusedIndex (run (initialState mockProps)
         [(mockProps, TriggerClick), (mockProps, KeyDown ArrowDown), (mockProps, KeyDown ArrowDown),
          (mockProps, KeyDown ArrowDown), (mockProps, KeyDown ArrowDown)]) = 3
   \<and> run (initialState mockProps)
         [(mockProps, TriggerClick), (mockProps, KeyDown ArrowDown), (mockProps, KeyDown ArrowDown),
          (mockProps, KeyDown ArrowDown), (mockProps, KeyDown ArrowDown), (mockProps, KeyDown Enter)]
       = \<lparr> internalValue = Single (Str ''date''), isOpen = False, searchQuery = [],
           focusedIndex = 3, changes = [Single (Str ''date'')] \<rparr>"
  by (simp add: mock_defs handleOptionClick_def handleValueChange_def isControlled_def)

subsection \<open>Closing and the search query\<close>

text \<open>
  Claim C2, as stated: whenever the control is closed the query is empty. It fails: with
  a searchable Select, open by a click on the trigger, type \<open>app\<close>, click the trigger
  again; the control is closed and the query is still \<open>app\<close>.
\<close>

theorem C2_counterexample:
  "isOpen (run (initialState mockProps)
      [(mockProps\<lparr>searchable := True\<rparr>, TriggerClick),
       (mockProps\<lparr>searchable := True\<rparr>, SearchChange ''app''),
       (mockProps\<lparr>searchable := True\<rparr>, TriggerClick)]) = False
   \<and> searchQuery (run (initialState mockProps)
      [(mockProps\<lparr>searchable := True\<rparr>, TriggerClick),
       (mockProps\<lparr>searchable := True\<rparr>, SearchChange ''app''),
       (mockProps\<lparr>searchable := True\<rparr>, TriggerClick)]) = ''app''"
  by (simp add: mock_defs)

text \<open>
  Claim C2, amended: a click outside closes the control and clears the query; a click on
  the trigger and the commit of an option leave the query as it was, and the commit
  closes the control in single mode only.
\<close>

theorem C2_close_and_query:
  "isOpen (step p s ClickOutside) = False
   \<and> searchQuery (step p s ClickOutside) = []
   \<and> searchQuery (step p s TriggerClick) = searchQuery s
   \<and> searchQuery (handleOptionClick p s v) = searchQuery s
   \<and> isOpen (handleOptionClick p s v) = (multiple p \<and> isOpen s)"
  by (simp add: handleOptionClick_def handleValueChange_def Let_def)

theorem C2_close_and_query_witness:
  "searchQuery (step (mockProps\<lparr>searchable := True\<rparr>)
       ((initialState mockProps)\<lparr> isOpen := True, searchQuery := ''app'' \<rparr>) ClickOutside) = []
   \<and> searchQuery (step (mockProps\<lparr>searchable := True\<rparr>)
       ((initialState mockProps)\<lparr> isOpen := True, searchQuery := ''app'' \<rparr>) TriggerClick) = ''app''"
  using C2_close_and_query [of "mockProps\<lparr>searchable := True\<rparr>"
      "(initialState mockProps)\<lparr> isOpen := True, searchQuery := ''app'' \<rparr>"]
  by simp

subsection \<open>Controlled and uncontrolled selection\<close>

lemma handleValueChange_controlled:
  "controlledValue p = Some v \<Longrightarrow> internalValue (handleValueChange p s x) = internalValue s"
  by (simp add: handleValueChange_def isControlled_def)

lemma handleOptionClick_controlled:
  "controlledValue p = Some v \<Longrightarrow> internalValue (handleOptionClick p s x) = internalValue s"
  by (simp add: handleOptionClick_def Let_def handleValueChange_controlled)

lemma handleClear_controlled:
  "controlledValue p = Some v \<Longrightarrow> internalValue (handleClear p s) = internalValue s"
  by (simp add: handleClear_def handleValueChange_controlled)

lemma handleKeyDown_controlled:
  "controlledValue p = Some v \<Longrightarrow> internalValue (handleKeyDown p s k) = internalValue s"
  by (cases k) (simp_all add: handleOptionClick_controlled)

lemma step_controlled:
  "controlledValue p = Some v \<Longrightarrow> internalValue (step p s e) = internalValue s"
  by (cases e) (simp_all add: handleOptionClick_controlled handleClear_controlled
      handleKeyDown_controlled del: handleKeyDown.simps)

lemma toggles_controlled:
  "controlledValue p = Some v \<Longrightarrow>
     internalValue (foldl (handleOptionClick p) s vs) = internalValue s"
  by (induction vs arbitrary: s) (simp_all add: handleOptionClick_controlled)

lemma events_controlled:
  "controlledValue p = Some v \<Longrightarrow>
     internalValue (run s (map (Pair p) es)) = internalValue s"
  by (induction es arbitrary: s) (simp_all add: step_controlled)

text \<open>
  Claim C3: with an external value \<open>v\<close> supplied and never replaced, after any sequence
  of toggles (calls of \<open>handleOptionClick\<close> with any values), and after any sequence of
  events, the selection the control renders is \<open>v\<close>, and the internal value, the only
  state a selection is ever read from, is what it was.
\<close>

theorem C3_controlled_selection:
  assumes "controlledValue p = Some v"
  shows "currentValue p (foldl (handleOptionClick p) s vs) = v
       \<and> internalValue (foldl (handleOptionClick p) s vs) = internalValue s
       \<and> currentValue p (run s (map (Pair p) es)) = v
       \<and> internalValue (run s (map (Pair p) es)) = internalValue s"
  using assms by (simp add: currentValue_def toggles_controlled events_controlled)

theorem C3_controlled_selection_witness:
  "currentValue (mockProps\<lparr>controlledValue := Some (Single (Str ''apple''))\<rparr>)
     (foldl (handleOptionClick (mockProps\<lparr>controlledValue := Some (Single (Str ''apple''))\<rparr>))
        (initialState (mockProps\<lparr>controlledValue := Some (Single (Str ''apple''))\<rparr>))
        [Str ''banana'', Str ''cherry'']) = Single (Str ''apple'')
   \<and> changes (foldl (handleOptionClick (mockProps\<lparr>controlledValue := Some (Single (Str ''apple''))\<rparr>))
        (initialState (mockProps\<lparr>controlledValue := Some (Single (Str ''apple''))\<rparr>))
        [Str ''banana'', Str ''cherry'']) = [Single (Str ''banana''), Single (Str ''cherry'')]"
  using C3_controlled_selection [of "mockProps\<lparr>controlledValue := Some (Single (Str ''apple''))\<rparr>"
      "Single (Str ''apple'')"
      "initialState (mockProps\<lparr>controlledValue := Some (Single (Str ''apple''))\<rparr>)"
      "[Str ''banana'', Str ''cherry'']" "[]"]
  by (simp add: mock_defs handleOptionClick_def handleValueChange_def isControlled_def)

text \<open>
  Claim C4, as stated: the mode is decided once, at creation, and never changes. It
  fails: \<open>isControlled\<close> is computed from the props of every render. An instance created
  with the value \<open>apple\<close> supplied is controlled; rendered again with the value omitted
  it is uncontrolled, and a click on \<open>Banana\<close> then changes the selection it renders.
\<close>

theorem C4_counterexample:
  "isControlled (mockProps\<lparr>controlledValue := Some (Single (Str ''apple''))\<rparr>) = True
   \<and> isControlled mockProps = False
   \<and> currentValue mockProps
        (run (initialState (mockProps\<lparr>controlledValue := Some (Single (Str ''apple''))\<rparr>))
           [(mockProps\<lparr>controlledValue := Some (Single (Str ''apple''))\<rparr>, TriggerClick),
            (mockProps, OptionClick 1)])
       = Single (Str ''banana'')"
  by (simp add: mock_defs handleOptionClick_def handleValueChange_def isControlled_def
      currentValue_def)

text \<open>
  Claim C4, amended: the mode is decided at every render by whether that render's props
  supply a value. Whatever the props \<open>p0\<close> at creation and the events since, under the
  props \<open>p\<close> of the current render the control renders the supplied value when there is
  one and the internal value otherwise, and a change is stored in the internal value
  exactly when no value is supplied.
\<close>

theorem C4_mode_follows_props:
  "isControlled p = (controlledValue p \<noteq> None)
   \<and> currentValue p (run (initialState p0) evs) =
       (case controlledValue p of
          Some v \<Rightarrow> v
        | None \<Rightarrow> internalValue (run (initialState p0) evs))
   \<and> internalValue (handleValueChange p (run (initialState p0) evs) x) =
       (if controlledValue p = None then x else internalValue (run (initialState p0) evs))"
  by (simp add: isControlled_def currentValue_def handleValueChange_def)

theorem C4_mode_follows_props_witness:
  "isControlled mockProps = False
   \<and> internalValue (handleValueChange mockProps
        (run (initialState (mockProps\<lparr>controlledValue := Some (Single (Str ''apple''))\<rparr>)) [])
        (Single (Str ''banana''))) = Single (Str ''banana'')"
  using C4_mode_follows_props [of mockProps
      "mockProps\<lparr>controlledValue := Some (Single (Str ''apple''))\<rparr>" "[]"
      "Single (Str ''banana'')"]
  by (simp add: mockProps_def)

subsection \<open>The search filter\<close>

lemma str_includes_sublist: "str_includes s t = sublist t s"
  by (induction s) (simp_all add: sublist_Cons_right)

lemma str_includes_iff: "str_includes s t = (\<exists>before after. s = before @ t @ after)"
  by (simp add: str_includes_sublist sublist_def)

lemma ascii_pairs:
  "zip ''ABCDEFGHIJKLMNOPQRSTUVWXYZ'' ''abcdefghijklmnopqrstuvwxyz''
     = map (\<lambda>n. (char_of n, char_of (n + 32))) [65 ..< 91 :: nat]"
  by code_simp

lemma case_pairs_map:
  "case_pairs =
     map (\<lambda>n. (char_of n, char_of (n + 32))) ([65 ..< 91] @ [192 ..< 215] @ [216 ..< 223 :: nat])"
  unfolding case_pairs_def ascii_pairs by simp

lemma set_case_pairs:
  "set case_pairs =
     (\<lambda>n. (char_of n, char_of (n + 32))) ` ({65..<91} \<union> {192..<215} \<union> {216..<223 :: nat})"
  by (simp only: case_pairs_map set_map set_append set_upt Un_assoc)

lemma case_pairs_iff:
  "(c, d) \<in> set case_pairs \<longleftrightarrow> is_upper c \<and> (of_char d :: nat) = of_char c + 32"
proof
  assume "(c, d) \<in> set case_pairs"
  then obtain n :: nat where n: "n \<in> {65..<91} \<union> {192..<215} \<union> {216..<223}"
    and c: "c = char_of n" and d: "d = char_of (n + 32)"
    unfolding set_case_pairs by blast
  from n have "n < 256" "n + 32 < 256" by auto
  then have "(of_char c :: nat) = n" "(of_char d :: nat) = n + 32"
    by (simp_all add: c d of_char_of)
  with n show "is_upper c \<and> (of_char d :: nat) = of_char c + 32"
    by (auto simp: is_upper_def)
next
  assume a: "is_upper c \<and> (of_char d :: nat) = of_char c + 32"
  let ?n = "of_char c :: nat"
  from a have "?n \<in> {65..<91} \<union> {192..<215} \<union> {216..<223}"
    by (auto simp: is_upper_def)
  moreover have "c = char_of ?n" by simp
  moreover from a have "d = char_of (?n + 32)"
    by (metis char_of_char)
  ultimately show "(c, d) \<in> set case_pairs"
    unfolding set_case_pairs by blast
qed

lemma lower_char_eq_iff: "lower_char c = lower_char d \<longleftrightarrow> same_letter c d"
proof -
  have up: "is_upper x \<Longrightarrow> (of_char (lower_char x) :: nat) = of_char x + 32" for x
    using nat_of_char_less_256 [of x]
    by (auto simp: lower_char_def is_upper_def of_char_of)
  have nup: "\<not> is_upper x \<Longrightarrow> lower_char x = x" for x
    by (simp add: lower_char_def)
  have eq: "lower_char c = lower_char d
      \<longleftrightarrow> (of_char (lower_char c) :: nat) = of_char (lower_char d)"
    by (simp add: of_char_eq_iff)
  have cd: "c = d \<longleftrightarrow> (of_char c :: nat) = of_char d"
    by (simp add: of_char_eq_iff)
  show ?thesis
    unfolding same_letter_def case_pairs_iff eq cd
    by (cases "is_upper c"; cases "is_upper d")
       (auto simp: up nup is_upper_def)
qed

lemma map_lower_eq_iff:
  "map lower_char xs = map lower_char ys \<longleftrightarrow> list_all2 same_letter xs ys"
proof -
  have "map lower_char xs = map lower_char ys
      \<longleftrightarrow> list_all2 (\<lambda>x y. lower_char x = lower_char y) xs ys"
    by (simp add: list.rel_eq [symmetric] list.rel_map del: list.rel_eq)
  then show ?thesis by (simp add: lower_char_eq_iff)
qed

lemma includes_lower_iff:
  "str_includes (toLowerCase lbl) (toLowerCase q) \<longleftrightarrow> contains_ci lbl q"
proof
  assume "str_includes (toLowerCase lbl) (toLowerCase q)"
  then obtain b a where "map lower_char lbl = b @ map lower_char q @ a"
    by (auto simp: str_includes_iff toLowerCase_def)
  then obtain b' r where l1: "lbl = b' @ r" and "map lower_char r = map lower_char q @ a"
    by (metis map_eq_append_conv)
  then obtain m a' where l2: "r = m @ a'" and "map lower_char m = map lower_char q"
    by (metis map_eq_append_conv)
  then have "list_all2 same_letter m q" by (simp add: map_lower_eq_iff)
  with l1 l2 show "contains_ci lbl q" unfolding contains_ci_def by blast
next
  assume "contains_ci lbl q"
  then obtain b m a where l: "lbl = b @ m @ a" and "list_all2 same_letter m q"
    unfolding contains_ci_def by blast
  then have "map lower_char m = map lower_char q" by (simp add: map_lower_eq_iff)
  with l have "map lower_char lbl = map lower_char b @ map lower_char q @ map lower_char a"
    by simp
  then show "str_includes (toLowerCase lbl) (toLowerCase q)"
    unfolding str_includes_iff toLowerCase_def by blast
qed

lemma contains_ci_empty: "contains_ci lbl []"
  unfolding contains_ci_def by (simp add: exI [of _ "[]"])

lemma search_filter_spec_empty: "search_filter_spec opts [] = opts"
  by (simp add: search_filter_spec_def contains_ci_empty)

lemma filteredOptions_eq_spec:
  "searchable p \<Longrightarrow> filteredOptions p s = search_filter_spec (options p) (searchQuery s)"
  by (simp add: filteredOptions_def filterOptions_def includes_lower_iff
      search_filter_spec_def search_filter_spec_empty [unfolded search_filter_spec_def])

text \<open>
  Claim C8, as stated: for every option list and query string the filter returns the
  options whose label contains the query as a case-insensitive substring. It fails
  beyond the 8-bit range, where lower-casing looks at the context: the label
  \<open>A\<Sigma>A\<close> begins with the query \<open>A\<Sigma>\<close>, letter for letter; the label is lower-cased
  with the small sigma, the query with the final sigma, and the option is not returned.
\<close>

theorem C8_counterexample:
  "[CapA, CapSigma, CapA] = [] @ [CapA, CapSigma] @ [CapA]
   \<and> toLowerCaseW [CapA, CapSigma, CapA] = [SmallA, SmallSigma, SmallA]
   \<and> toLowerCaseW [CapA, CapSigma] = [SmallA, FinalSigma]
   \<and> filterOptions toLowerCaseW (\<lambda>option. option) True [CapA, CapSigma]
        [[CapA, CapSigma, CapA]] = []"
  by (simp add: filterOptions_def toLowerCaseW_def)

text \<open>
  Claim C8, amended: for a searchable Select the filter returns, in their order, the
  options whose lower-cased label contains the lower-cased query (over any code units
  and whatever the lower-casing), a subsequence of the options, and the option list
  itself for the empty query. For labels and queries of code units below 256 these are
  the options whose label contains the query as a case-insensitive substring: a run of
  the label is the query up to the case of letters. The filter is a function of the
  options and the query: the options are only read.
\<close>

theorem C8_search_filter:
  assumes "searchable p"
  shows "filteredOptions p s = search_filter_spec (options p) (searchQuery s)
       \<and> subseq (filteredOptions p s) (options p)
       \<and> (searchQuery s = [] \<longrightarrow> filteredOptions p s = options p)
       \<and> (q \<noteq> [] \<longrightarrow>
            filterOptions lower label True q opts =
              filter (\<lambda>option. \<exists>before after. lower (label option) = before @ lower q @ after)
                opts)
       \<and> filterOptions lower label True [] opts = opts
       \<and> subseq (filterOptions lower label True q opts) opts"
proof -
  have a: "filteredOptions p s = search_filter_spec (options p) (searchQuery s)"
    using assms by (rule filteredOptions_eq_spec)
  have b: "subseq (filteredOptions p s) (options p)"
    by (simp add: filteredOptions_def filterOptions_def)
  have c: "searchQuery s = [] \<longrightarrow> filteredOptions p s = options p"
    by (simp add: filteredOptions_def filterOptions_def)
  have d: "q \<noteq> [] \<longrightarrow>
            filterOptions lower label True q opts =
              filter (\<lambda>option. \<exists>before after. lower (label option) = before @ lower q @ after)
                opts"
    by (simp add: filterOptions_def str_includes_iff)
  have e: "filterOptions lower label True [] opts = opts"
    by (simp add: filterOptions_def)
  have f: "subseq (filterOptions lower label True q opts) opts"
    by (simp add: filterOptions_def)
  from a b c d e f show ?thesis by blast
qed

theorem C8_search_filter_witness:
  "filteredOptions (mockProps\<lparr>searchable := True\<rparr>)
       ((initialState mockProps)\<lparr>isOpen := True, searchQuery := ''APP''\<rparr>)
     = [\<lparr> opt_value = Str ''apple'', opt_label = ''Apple'', opt_disabled = False \<rparr>]
   \<and> search_filter_spec mockOptions ''APP''
     = [\<lparr> opt_value = Str ''apple'', opt_label = ''Apple'', opt_disabled = False \<rparr>]
   \<and> filteredOptions (mockProps\<lparr>searchable := True\<rparr>) (initialState mockProps) = mockOptions
   \<and> search_filter_spec
        [\<lparr> opt_value = Num 1, opt_label = CHR 0xC9 # ''CLAIR'', opt_disabled = False \<rparr>]
        (CHR 0xE9 # ''clair'')
     = [\<lparr> opt_value = Num 1, opt_label = CHR 0xC9 # ''CLAIR'', opt_disabled = False \<rparr>]"
proof -
  let ?p = "mockProps\<lparr>searchable := True\<rparr>"
  let ?s = "(initialState mockProps)\<lparr>isOpen := True, searchQuery := ''APP''\<rparr>"
  let ?eclair = "\<lparr> opt_value = Num 1, opt_label = CHR 0xC9 # ''CLAIR'', opt_disabled = False \<rparr>"
  let ?pe = "mockProps\<lparr>searchable := True, options := [?eclair]\<rparr>"
  let ?se = "(initialState mockProps)\<lparr>isOpen := True, searchQuery := CHR 0xE9 # ''clair''\<rparr>"
  have o: "options mockProps = mockOptions"
    by (simp add: mockProps_def)
  have q0: "searchQuery (initialState mockProps) = []"
    by (simp add: initialState_def)
  have app: "filteredOptions ?p ?s
     = [\<lparr> opt_value = Str ''apple'', opt_label = ''Apple'', opt_disabled = False \<rparr>]"
    by code_simp
  have eclair: "filteredOptions ?pe ?se = [?eclair]"
    by code_simp
  have a: "filteredOptions ?p ?s = search_filter_spec mockOptions ''APP''"
    using C8_search_filter [where p = ?p and s = ?s and q = "[]" and lower = toLowerCase
        and label = opt_label and opts = "[]", THEN conjunct1]
    by (simp add: o)
  have b: "filteredOptions ?p (initialState mockProps) = mockOptions"
    using C8_search_filter [where p = ?p and s = "initialState mockProps" and q = "[]"
        and lower = toLowerCase and label = opt_label and opts = "[]",
        THEN conjunct2, THEN conjunct2, THEN conjunct1]
    by (simp add: o q0)
  have c: "filteredOptions ?pe ?se = search_filter_spec [?eclair] (CHR 0xE9 # ''clair'')"
    using C8_search_filter [where p = ?pe and s = ?se and q = "[]" and lower = toLowerCase
        and label = opt_label and opts = "[]", THEN conjunct1]
    by simp
  show ?thesis
    by (simp only: a [symmetric] c [symmetric] b app eclair simp_thms)
qed

subsection \<open>Arrow keys\<close>

text \<open>
  Claim C9, as stated: ArrowUp sets the focused index to
  \<open>(focusedIndex - 1 + filteredCount) mod filteredCount\<close> from every index the state
  can hold, the initial \<open>-1\<close> included. It fails at \<open>-1\<close>: on the five options of
  the tests, ArrowUp on the freshly opened list focuses index 4, the last row, where the
  formula gives 3.
\<close>

theorem C9_counterexample:
  "focusedIndex (initialState mockProps) = - 1
   \<and> length (filteredOptions mockProps (step mockProps (initialState mockProps) TriggerClick)) = 5
   \<and> focusedIndex (run (initialState mockProps)
        [(mockProps, TriggerClick), (mockProps, KeyDown ArrowUp)]) = 4
   \<and> (- 1 - 1 + 5) mod 5 = (3::int)"
  by (simp add: mock_defs)

text \<open>
  Claim C9, amended: while an enabled Select is open with a non-empty filtered list of
  size \<open>filteredCount\<close> and the focused index is \<open>-1\<close> or an index of that list,
  ArrowDown sets it to \<open>(focusedIndex + 1) mod filteredCount\<close>, and ArrowUp sets it to
  \<open>(focusedIndex - 1 + filteredCount) mod filteredCount\<close> from an index of the list and
  to the last index \<open>filteredCount - 1\<close> from \<open>-1\<close>.
\<close>

theorem C9_arrows:
  assumes "\<not> disabled p" "isOpen s"
    and "filteredCount = int (length (filteredOptions p s))"
    and "0 < filteredCount" "- 1 \<le> focusedIndex s" "focusedIndex s < filteredCount"
  shows "focusedIndex (handleKeyDown p s ArrowDown) = (focusedIndex s + 1) mod filteredCount
       \<and> focusedIndex (handleKeyDown p s ArrowUp) =
           (if focusedIndex s = - 1 then filteredCount - 1
            else (focusedIndex s - 1 + filteredCount) mod filteredCount)"
proof -
  let ?f = "focusedIndex s"
  have down: "(if ?f < filteredCount - 1 then ?f + 1 else 0) = (?f + 1) mod filteredCount"
  proof (cases "?f < filteredCount - 1")
    case True
    with assms show ?thesis by simp
  next
    case False
    with assms have "?f + 1 = filteredCount" by simp
    with False show ?thesis by simp
  qed
  have up: "(if ?f > 0 then ?f - 1 else filteredCount - 1) =
              (if ?f = - 1 then filteredCount - 1 else (?f - 1 + filteredCount) mod filteredCount)"
  proof (cases "?f > 0")
    case True
    with assms show ?thesis by simp
  next
    case False
    with assms have "?f = - 1 \<or> ?f = 0" by auto
    with assms show ?thesis by (auto simp: zmod_minus1)
  qed
  have d: "focusedIndex (handleKeyDown p s ArrowDown) =
             (if ?f < filteredCount - 1 then ?f + 1 else 0)"
    using assms(1,2,3) by simp
  have u: "focusedIndex (handleKeyDown p s ArrowUp) =
             (if ?f > 0 then ?f - 1 else filteredCount - 1)"
    using assms(1,2,3) by simp
  show ?thesis
    by (rule conjI) (simp only: d down, simp only: u up)
qed

theorem C9_arrows_witness:
  "focusedIndex (handleKeyDown mockProps
       ((initialState mockProps)\<lparr>isOpen := True, focusedIndex := 4\<rparr>) ArrowDown) = 0
   \<and> focusedIndex (handleKeyDown mockProps
       ((initialState mockProps)\<lparr>isOpen := True, focusedIndex := 0\<rparr>) ArrowUp) = 4
   \<and> focusedIndex (handleKeyDown mockProps
       ((initialState mockProps)\<lparr>isOpen := True\<rparr>) ArrowUp) = 4"
  using C9_arrows [of mockProps "(initialState mockProps)\<lparr>isOpen := True, focusedIndex := 4\<rparr>" 5]
    C9_arrows [of mockProps "(initialState mockProps)\<lparr>isOpen := True, focusedIndex := 0\<rparr>" 5]
    C9_arrows [of mockProps "(initialState mockProps)\<lparr>isOpen := True\<rparr>" 5]
  by (simp add: mock_defs)

section \<open>Properties of the Table component\<close>

lemmas users_defs = usersProps_def users_def user_def nameColumn_def ageColumn_def
  initialTableState_def

lemmas unkeyed_defs = unkeyedProps_def unkeyedRows_def users_defs

subsection \<open>Sorting\<close>

lemma length_insert_by: "length (insert_by cmp x ys) = Suc (length ys)"
  by (induction ys) simp_all

lemma length_sort_by: "length (sort_by cmp xs) = length xs"
  by (induction xs) (simp_all add: sort_by_def length_insert_by)

lemma length_sortedData: "length (sortedData lt p s) = length (data p)"
  by (simp add: sortedData_def length_sort_by split: option.splits)

text \<open>
  Claim C5: with sorting on and from the unsorted state, clicks on the header of one
  sortable column lead to ascending, then descending, then unsorted again, so that after
  three clicks the sorted rows are the input rows in their order and the displayed page is
  the one displayed before. A click on the header of a sortable column that is not the
  active one leads to that column ascending, whatever the state before.
\<close>

theorem C5_sort_cycle:
  assumes "sortable p" and "col_sortable c \<noteq> Some False"
    and "sortState s = \<lparr> sortKey = None, sortDirection = None \<rparr>"
    and "col_sortable c' \<noteq> Some False" and "sortKey (sortState s') \<noteq> Some (col_key c')"
  shows "sortState (table_run lt s [(p, HeaderClick c)])
           = \<lparr> sortKey = Some (col_key c), sortDirection = Some Asc \<rparr>
       \<and> sortState (table_run lt s [(p, HeaderClick c), (p, HeaderClick c)])
           = \<lparr> sortKey = Some (col_key c), sortDirection = Some Desc \<rparr>
       \<and> sortState (table_run lt s [(p, HeaderClick c), (p, HeaderClick c), (p, HeaderClick c)])
           = \<lparr> sortKey = None, sortDirection = None \<rparr>
       \<and> sortedData lt p
            (table_run lt s [(p, HeaderClick c), (p, HeaderClick c), (p, HeaderClick c)]) = data p
       \<and> paginatedData lt p
            (table_run lt s [(p, HeaderClick c), (p, HeaderClick c), (p, HeaderClick c)])
           = paginatedData lt p s
       \<and> sortState (table_step lt p s' (HeaderClick c'))
           = \<lparr> sortKey = Some (col_key c'), sortDirection = Some Asc \<rparr>"
  using assms by (simp add: handleSort_def sortedData_def paginatedData_def)

theorem C5_sort_cycle_witness:
  "sortedData js_lt usersProps
       (table_run js_lt initialTableState [(usersProps, HeaderClick nameColumn)])
     = [user 4 ''Alice Brown'' 29, user 3 ''Bob Johnson'' 45, user 5 ''Charlie Wilson'' 38,
        user 2 ''Jane Smith'' 32, user 1 ''John Doe'' 28]
   \<and> sortedData js_lt usersProps
       (table_run js_lt initialTableState
          [(usersProps, HeaderClick nameColumn), (usersProps, HeaderClick nameColumn),
           (usersProps, HeaderClick nameColumn)])
     = users
   \<and> sortState
       (table_run js_lt initialTableState
          [(usersProps, HeaderClick nameColumn), (usersProps, HeaderClick ageColumn)])
     = \<lparr> sortKey = Some ''age'', sortDirection = Some Asc \<rparr>"
  using C5_sort_cycle [where p = usersProps and c = nameColumn and s = initialTableState
      and c' = ageColumn and lt = js_lt
      and s' = "table_run js_lt initialTableState [(usersProps, HeaderClick nameColumn)]"]
  by (simp add: users_defs handleSort_def sortedData_def sort_by_def compareRows_def
      get_field_def)

subsection \<open>Pagination\<close>

lemma totalPages_data: "totalPages lt p s = ceil_div (int (length (data p))) (pageSize p)"
  by (simp add: totalPages_def length_sortedData)

lemma ceil_div_bounds:
  assumes "0 < d"
  shows "(ceil_div n d - 1) * d < n \<and> n \<le> ceil_div n d * d"
proof -
  have "ceil_div n d = - ((- n) div d)" by (simp add: ceil_div_def)
  moreover have "(- n) div d * d \<le> - n" using assms
    by (metis div_mult_mod_eq le_add_same_cancel1 pos_mod_sign)
  moreover have "- n < ((- n) div d + 1) * d" using assms
    by (metis add.commute div_mult_mod_eq distrib_right mult.commute mult_1 pos_mod_bound
        add_less_cancel_left)
  ultimately show ?thesis by (simp add: algebra_simps)
qed

lemma ceil_div_zero_iff: "0 < d \<Longrightarrow> 0 \<le> n \<Longrightarrow> (ceil_div n d = 0) = (n = 0)"
  using ceil_div_bounds [of d n] by (auto simp: ceil_div_def)

lemma totalPages_step: "totalPages lt p (table_step lt p s e) = totalPages lt p s"
  by (simp add: totalPages_data)

lemma currentPage_handleSort: "currentPage (handleSort p s k) = currentPage s"
  by (simp add: handleSort_def)

lemma currentPage_handleRowSelection: "currentPage (handleRowSelection p s k r) = currentPage s"
  by (simp add: handleRowSelection_def Let_def)

lemma currentPage_handleSelectAll: "currentPage (handleSelectAll p s) = currentPage s"
  by (simp add: handleSelectAll_def Let_def)

lemma currentPage_step:
  "currentPage (table_step lt p s e) =
     (case e of
        PreviousClick \<Rightarrow> (if pagination p \<and> currentPage s \<noteq> 1
                          then max 1 (currentPage s - 1) else currentPage s)
      | NextClick \<Rightarrow> (if pagination p \<and> currentPage s < totalPages lt p s
                      then min (totalPages lt p s) (currentPage s + 1) else currentPage s)
      | _ \<Rightarrow> currentPage s)"
  by (cases e) (simp_all add: currentPage_handleSort currentPage_handleRowSelection
      currentPage_handleSelectAll previousPage_def nextPage_def)

lemma page_in_range_step:
  "page_in_range lt p s \<Longrightarrow> page_in_range lt p (table_step lt p s e)"
  unfolding page_in_range_def totalPages_step currentPage_step
  by (cases e) auto

lemma slice_beyond: "0 \<le> start \<Longrightarrow> int (length xs) \<le> start \<Longrightarrow> slice xs start fin = []"
  by (simp add: slice_def Let_def)

lemma slice_take_drop:
  "0 \<le> start \<Longrightarrow> 0 \<le> n \<Longrightarrow> slice xs start (start + n) = take (nat n) (drop (nat start) xs)"
  by (auto simp: slice_def Let_def min_def take_all_iff)

text \<open>
  Claim C6, as stated: \<open>currentPage \<le> max(1, ceil(rows / pageSize))\<close> holds in every
  reachable state, the page being clamped when the dataset shrinks. It fails: with page
  size 2 over the five users, two clicks on Next lead to page 3; rendered again with the
  first three users only, the table is still on page 3, also after a further click, where
  the bound is 2.
\<close>

theorem C6_counterexample:
  "currentPage (table_run js_lt initialTableState
      [(usersProps, NextClick), (usersProps, NextClick)]) = 3
   \<and> length (data usersProps) = 5 \<and> pageSize usersProps = 2
   \<and> length (data (usersProps\<lparr>data := take 3 users\<rparr>)) = 3
   \<and> max 1 (totalPages js_lt (usersProps\<lparr>data := take 3 users\<rparr>)
        (table_run js_lt initialTableState
           [(usersProps, NextClick), (usersProps, NextClick),
            (usersProps\<lparr>data := take 3 users\<rparr>, NextClick)])) = 2
   \<and> currentPage (table_run js_lt initialTableState
        [(usersProps, NextClick), (usersProps, NextClick),
         (usersProps\<lparr>data := take 3 users\<rparr>, NextClick)]) = 3"
  by (simp add: users_defs totalPages_def sortedData_def ceil_div_def nextPage_def)

text \<open>
  Claim C6, amended: for a positive page size, the current page starts within
  \<open>1 \<le> currentPage \<le> max(1, ceil(rows / pageSize))\<close> and every event handled over the
  same props keeps it there; only the Previous and the Next button change the current
  page, so nothing clamps it when the dataset shrinks; and on a page that starts at or
  beyond the end of the rows the visible window is empty.
\<close>

theorem C6_page_bound:
  assumes "0 < pageSize p"
  shows "page_in_range lt p initialTableState
       \<and> (page_in_range lt p s \<longrightarrow> page_in_range lt p (table_step lt p s e))
       \<and> (e \<noteq> PreviousClick \<and> e \<noteq> NextClick \<longrightarrow>
            currentPage (table_step lt p s e) = currentPage s)
       \<and> (pagination p \<and> 1 \<le> currentPage s
            \<and> int (length (sortedData lt p s)) \<le> (currentPage s - 1) * pageSize p
            \<longrightarrow> paginatedData lt p s = [])"
proof -
  have a: "page_in_range lt p initialTableState"
    by (simp add: page_in_range_def initialTableState_def)
  have c: "e \<noteq> PreviousClick \<and> e \<noteq> NextClick \<longrightarrow>
            currentPage (table_step lt p s e) = currentPage s"
    by (cases e) (simp_all add: currentPage_handleSort currentPage_handleRowSelection
        currentPage_handleSelectAll)
  have d: "pagination p \<and> 1 \<le> currentPage s
            \<and> int (length (sortedData lt p s)) \<le> (currentPage s - 1) * pageSize p
            \<longrightarrow> paginatedData lt p s = []"
    using assms by (auto simp: paginatedData_def Let_def slice_beyond)
  from a c d page_in_range_step show ?thesis by blast
qed

theorem C6_page_bound_witness:
  "page_in_range js_lt usersProps
     (table_run js_lt initialTableState [(usersProps, NextClick), (usersProps, NextClick)])
   \<and> currentPage (table_run js_lt initialTableState
        [(usersProps, NextClick), (usersProps, NextClick), (usersProps, NextClick)]) = 3
   \<and> paginatedData js_lt (usersProps\<lparr>data := take 3 users\<rparr>)
        (table_run js_lt initialTableState [(usersProps, NextClick), (usersProps, NextClick)]) = []"
  using C6_page_bound [of usersProps js_lt initialTableState NextClick]
    C6_page_bound [of usersProps js_lt "table_step js_lt usersProps initialTableState NextClick"
      NextClick]
    C6_page_bound [of "usersProps\<lparr>data := take 3 users\<rparr>" js_lt
      "table_run js_lt initialTableState [(usersProps, NextClick), (usersProps, NextClick)]"
      NextClick]
  by (simp add: users_defs totalPages_def sortedData_def ceil_div_def nextPage_def)

text \<open>
  Claim C7, as stated: \<open>totalPages = max(1, ceil(rows / pageSize))\<close>, at least 1 even
  for an empty row list. It fails: the page count the table computes and shows for an
  empty row list is 0.
\<close>

theorem C7_counterexample:
  "totalPages js_lt (usersProps\<lparr>data := []\<rparr>) initialTableState = 0
   \<and> max 1 (ceil_div (int (length ([] :: row list))) 2) = 1"
  by (simp add: users_defs totalPages_def sortedData_def ceil_div_def)

text \<open>
  Claim C7, amended: for a positive page size and with pagination on, the page count is
  \<open>ceil(rows / pageSize)\<close>, the least integer whose multiple of the page size reaches
  the number of rows, which is 0 exactly for an empty row list; the visible window is
  \<open>rows[(currentPage-1)*pageSize : currentPage*pageSize]\<close>; Previous leads to
  \<open>max(1, currentPage - 1)\<close> and Next to \<open>currentPage + 1\<close> below the page count and
  nowhere from there on; so from a page between 1 and \<open>max(1, page count)\<close> both stay
  in that range, each doing nothing at its end of it, without wrapping around.
\<close>

theorem C7_pagination:
  assumes "0 < pageSize p" and "pagination p"
  shows "(totalPages lt p s - 1) * pageSize p < int (length (sortedData lt p s))
       \<and> int (length (sortedData lt p s)) \<le> totalPages lt p s * pageSize p
       \<and> (totalPages lt p s = 0) = (sortedData lt p s = [])
       \<and> paginatedData lt p s =
           slice (sortedData lt p s) ((currentPage s - 1) * pageSize p)
             (currentPage s * pageSize p)
       \<and> (1 \<le> currentPage s \<longrightarrow>
            paginatedData lt p s =
              take (nat (pageSize p))
                (drop (nat ((currentPage s - 1) * pageSize p)) (sortedData lt p s)))
       \<and> currentPage (table_step lt p s PreviousClick) = max 1 (currentPage s - 1)
       \<and> currentPage (table_step lt p s NextClick) =
           (if currentPage s < totalPages lt p s then currentPage s + 1 else currentPage s)
       \<and> (1 \<le> currentPage s \<and> currentPage s \<le> max 1 (totalPages lt p s) \<longrightarrow>
            1 \<le> currentPage (table_step lt p s PreviousClick)
            \<and> currentPage (table_step lt p s PreviousClick) \<le> max 1 (totalPages lt p s)
            \<and> 1 \<le> currentPage (table_step lt p s NextClick)
            \<and> currentPage (table_step lt p s NextClick) \<le> max 1 (totalPages lt p s)
            \<and> (currentPage s = 1 \<longrightarrow>
                 currentPage (table_step lt p s PreviousClick) = currentPage s)
            \<and> (currentPage s = max 1 (totalPages lt p s) \<longrightarrow>
                 currentPage (table_step lt p s NextClick) = currentPage s))"
proof -
  let ?n = "int (length (sortedData lt p s))"
  have b: "(totalPages lt p s - 1) * pageSize p < ?n \<and> ?n \<le> totalPages lt p s * pageSize p"
    unfolding totalPages_def using assms(1) by (rule ceil_div_bounds)
  have z: "(totalPages lt p s = 0) = (sortedData lt p s = [])"
    unfolding totalPages_def using assms(1) by (simp add: ceil_div_zero_iff)
  have "(currentPage s - 1) * pageSize p + pageSize p = currentPage s * pageSize p"
    by (simp add: algebra_simps)
  then have sl: "paginatedData lt p s =
           slice (sortedData lt p s) ((currentPage s - 1) * pageSize p)
             (currentPage s * pageSize p)"
    using assms(2) by (simp add: paginatedData_def Let_def)
  have td: "1 \<le> currentPage s \<longrightarrow>
            paginatedData lt p s =
              take (nat (pageSize p))
                (drop (nat ((currentPage s - 1) * pageSize p)) (sortedData lt p s))"
    using assms by (simp add: paginatedData_def Let_def slice_take_drop)
  have pr: "currentPage (table_step lt p s PreviousClick) = max 1 (currentPage s - 1)"
    using assms(2) by (simp add: previousPage_def)
  have nx: "currentPage (table_step lt p s NextClick) =
           (if currentPage s < totalPages lt p s then currentPage s + 1 else currentPage s)"
    using assms(2) by (simp add: nextPage_def)
  have rg: "1 \<le> currentPage s \<and> currentPage s \<le> max 1 (totalPages lt p s) \<longrightarrow>
            1 \<le> currentPage (table_step lt p s PreviousClick)
            \<and> currentPage (table_step lt p s PreviousClick) \<le> max 1 (totalPages lt p s)
            \<and> 1 \<le> currentPage (table_step lt p s NextClick)
            \<and> currentPage (table_step lt p s NextClick) \<le> max 1 (totalPages lt p s)
            \<and> (currentPage s = 1 \<longrightarrow>
                 currentPage (table_step lt p s PreviousClick) = currentPage s)
            \<and> (currentPage s = max 1 (totalPages lt p s) \<longrightarrow>
                 currentPage (table_step lt p s NextClick) = currentPage s)"
    unfolding pr nx by auto
  from b z sl td pr nx rg show ?thesis by blast
qed

theorem C7_pagination_witness:
  "totalPages js_lt usersProps initialTableState = 3
   \<and> paginatedData js_lt usersProps (table_step js_lt usersProps initialTableState NextClick)
       = [user 3 ''Bob Johnson'' 45, user 4 ''Alice Brown'' 29]
   \<and> currentPage (table_step js_lt usersProps initialTableState PreviousClick) = 1
   \<and> currentPage (table_step js_lt usersProps (initialTableState\<lparr>currentPage := 3\<rparr>) NextClick) = 3"
  using C7_pagination [where p = usersProps and lt = js_lt and s = initialTableState]
    C7_pagination [where p = usersProps and lt = js_lt
      and s = "table_step js_lt usersProps initialTableState NextClick"]
    C7_pagination [where p = usersProps and lt = js_lt
      and s = "initialTableState\<lparr>currentPage := 3\<rparr>"]
  by (simp add: users_defs totalPages_def sortedData_def ceil_div_def nextPage_def
      paginatedData_def slice_def)

subsection \<open>Row keys\<close>

text \<open>
  Claim C10: when \<open>rowKey\<close> is a field name, a row whose value at that field is falsy is
  keyed by the index passed to \<open>getRowKey\<close>, and any other row by the value. The rows
  resolved for the change callback are the records whose key at index 0 is among the new
  keys. So they can disagree with the rows rendered checked: for two rows without an
  \<open>id\<close> the rendered keys are 0 and 1; the checkbox of the second row reports the keys
  \<open>[1]\<close> with no row resolved, while with \<open>[1]\<close> as selected keys the second row is
  the one rendered checked.
\<close>

theorem C10_row_key_fallback:
  "(rowKey p = FieldName f \<longrightarrow>
      getRowKey p r i = (if js_truthy (get_field r f) then get_field r f else Number (int i)))
   \<and> (selectable p \<and> onSelectionChange p \<longrightarrow>
        (let newSelectedKeys =
               (if k \<in> set (selectedRowKeys p)
                then filter (\<lambda>k'. k' \<noteq> k) (selectedRowKeys p)
                else selectedRowKeys p @ [k])
         in selectionChanges (handleRowSelection p s k r') =
              selectionChanges s @
                [(newSelectedKeys,
                  filter (\<lambda>item. getRowKey p item 0 \<in> set newSelectedKeys) (data p))]))
   \<and> renderedKeys js_lt unkeyedProps initialTableState
        = [(Number 0, unkeyedRows ! 0), (Number 1, unkeyedRows ! 1)]
   \<and> selectionChanges (table_step js_lt unkeyedProps initialTableState (RowCheckbox 1))
        = [([Number 1], [])]
   \<and> checkedRows js_lt (unkeyedProps\<lparr> selectedRowKeys := [Number 1] \<rparr>) initialTableState
        = [unkeyedRows ! 1]"
proof -
  have a: "rowKey p = FieldName f \<longrightarrow>
      getRowKey p r i = (if js_truthy (get_field r f) then get_field r f else Number (int i))"
    by (simp add: getRowKey_def)
  have b: "selectable p \<and> onSelectionChange p \<longrightarrow>
        (let newSelectedKeys =
               (if k \<in> set (selectedRowKeys p)
                then filter (\<lambda>k'. k' \<noteq> k) (selectedRowKeys p)
                else selectedRowKeys p @ [k])
         in selectionChanges (handleRowSelection p s k r') =
              selectionChanges s @
                [(newSelectedKeys,
                  filter (\<lambda>item. getRowKey p item 0 \<in> set newSelectedKeys) (data p))])"
    by (simp add: handleRowSelection_def Let_def)
  have c: "renderedKeys js_lt unkeyedProps initialTableState
        = [(Number 0, unkeyedRows ! 0), (Number 1, unkeyedRows ! 1)]"
    by (simp add: unkeyed_defs renderedKeys_def paginatedData_def sortedData_def
        getRowKey_def get_field_def)
  have d: "selectionChanges (table_step js_lt unkeyedProps initialTableState (RowCheckbox 1))
        = [([Number 1], [])]"
    by (simp add: c, simp add: unkeyed_defs handleRowSelection_def getRowKey_def get_field_def)
  have e: "checkedRows js_lt (unkeyedProps\<lparr> selectedRowKeys := [Number 1] \<rparr>) initialTableState
        = [unkeyedRows ! 1]"
    by (simp add: unkeyed_defs checkedRows_def renderedKeys_def paginatedData_def sortedData_def
        getRowKey_def get_field_def)
  from a b c d e show ?thesis by blast
qed

theorem C10_row_key_fallback_witness:
  "getRowKey usersProps [(''id'', Number 0), (''name'', Text ''Zed'')] 3 = Number 3
   \<and> getRowKey usersProps [(''id'', Text []), (''name'', Text ''Zed'')] 3 = Number 3
   \<and> getRowKey usersProps [(''id'', Null), (''name'', Text ''Zed'')] 3 = Number 3
   \<and> getRowKey usersProps [(''id'', Undefined), (''name'', Text ''Zed'')] 3 = Number 3
   \<and> getRowKey usersProps [(''name'', Text ''Zed'')] 3 = Number 3
   \<and> getRowKey usersProps [(''id'', Number 7), (''name'', Text ''Zed'')] 3 = Number 7
   \<and> selectionChanges
        (handleRowSelection unkeyedProps initialTableState (Number 1) (unkeyedRows ! 1))
        = [([Number 1], [])]"
  using C10_row_key_fallback [where p = usersProps and f = "''id''" and i = 3
        and r = "[(''id'', Number 0), (''name'', Text ''Zed'')]"]
    C10_row_key_fallback [where p = unkeyedProps and s = initialTableState and k = "Number 1"
        and r' = "unkeyedRows ! 1"]
  by (simp add: unkeyed_defs getRowKey_def get_field_def handleRowSelection_def)

end
